theory Spec2Isabelle
  imports Complex_Main
begin

section \<open>JavaScript values\<close>

text \<open>
  The program is TypeScript; its numbers are IEEE doubles. Finite numbers are modelled as
  \<^typ>\<open>real\<close> (exact arithmetic; rounding is not modelled), and the three non-finite
  values that the program can produce are kept apart: \<open>Infinity\<close> (written by the source
  as the "no finite rate" value), \<open>NaN\<close> (arithmetic on \<open>undefined\<close>) and \<open>undefined\<close>
  itself (an array read past the end).
\<close>

datatype jsnum = Num real | Infinity | NaN | Undefined

text \<open>\<open>v > 0\<close>: false for \<open>NaN\<close> and for \<open>undefined\<close> (which converts to \<open>NaN\<close>).\<close>

fun jsGtZero :: "jsnum \<Rightarrow> bool" where
  "jsGtZero (Num r) = (r > 0)"
| "jsGtZero Infinity = True"
| "jsGtZero NaN = False"
| "jsGtZero Undefined = False"

text \<open>\<open>a < b\<close>: every comparison with \<open>NaN\<close> or \<open>undefined\<close> is false.\<close>

fun jsLess :: "jsnum \<Rightarrow> jsnum \<Rightarrow> bool" where
  "jsLess (Num a) (Num b) = (a < b)"
| "jsLess (Num a) Infinity = True"
| "jsLess _ _ = False"

text \<open>The global \<open>isFinite\<close>.\<close>

fun isFinite :: "jsnum \<Rightarrow> bool" where
  "isFinite (Num r) = True"
| "isFinite _ = False"

text \<open>\<open>xs[i]\<close>: an array read past the end is \<open>undefined\<close>, here \<open>None\<close>.\<close>

definition arrayGet :: "'a list \<Rightarrow> nat \<Rightarrow> 'a option" where
  "arrayGet xs i = (if i < length xs then Some (xs ! i) else None)"

text \<open>\<open>xs[i] || 0\<close>: \<open>undefined\<close> and \<open>0\<close> are falsy, every other finite number is kept.\<close>

definition orZero :: "real option \<Rightarrow> real" where
  "orZero v = (case v of None \<Rightarrow> 0 | Some r \<Rightarrow> (if r = 0 then 0 else r))"

text \<open>\<open>a - b\<close> on two array reads: \<open>undefined\<close> on either side gives \<open>NaN\<close>.\<close>

definition jsSub :: "real option \<Rightarrow> real option \<Rightarrow> jsnum" where
  "jsSub a b = (case a of None \<Rightarrow> NaN
                | Some u \<Rightarrow> (case b of None \<Rightarrow> NaN | Some v \<Rightarrow> Num (u - v)))"

text \<open>An array read used as a value.\<close>

definition jsRead :: "real option \<Rightarrow> jsnum" where
  "jsRead a = (case a of None \<Rightarrow> Undefined | Some u \<Rightarrow> Num u)"

section \<open>Data and configuration\<close>

definition LABOR_COST_PER_HOUR :: real where
  "LABOR_COST_PER_HOUR = 20"

definition MAX_LABOUR :: nat where
  "MAX_LABOUR = 10"

record ProductionSchedule =
  name :: string
  description :: string
  fixedCost :: real
  icon :: string
  production :: "real list"

text \<open>The three entries of \<open>PRODUCTION_SCHEDULES\<close> (the icons are emoji, named here).\<close>

definition standardOven :: ProductionSchedule where
  "standardOven = \<lparr>name = ''Standard Oven'',
     description = ''A reliable, small pizza oven. Good for starting out.'',
     fixedCost = 100, icon = ''fire'',
     production = [0, 10, 25, 45, 60, 70, 75, 77, 78, 78, 75]\<rparr>"

definition conveyorBeltOven :: ProductionSchedule where
  "conveyorBeltOven = \<lparr>name = ''Conveyor Belt Oven'',
     description = ''A larger, more efficient oven that streamlines the cooking process.'',
     fixedCost = 200, icon = ''fast-forward'',
     production = [0, 20, 50, 90, 140, 180, 210, 230, 240, 245, 248]\<rparr>"

definition industrialKitchen :: ProductionSchedule where
  "industrialKitchen = \<lparr>name = ''Industrial Kitchen'',
     description = ''A fully-equipped industrial kitchen for maximum output.'',
     fixedCost = 400, icon = ''factory'',
     production = [0, 30, 70, 120, 180, 250, 330, 420, 500, 560, 600]\<rparr>"

definition PRODUCTION_SCHEDULES :: "ProductionSchedule list" where
  "PRODUCTION_SCHEDULES = [standardOven, conveyorBeltOven, industrialKitchen]"

section \<open>The economic derivation (\<open>economicData\<close>)\<close>

record EconomicRecord =
  labour :: nat
  totalProduction :: real
  marginalProduct :: jsnum
  totalRevenue :: real
  variableCost :: real
  fixedCost :: real
  totalCost :: real
  totalProfit :: real
  marginalCost :: jsnum
  averageTotalCost :: jsnum

text \<open>
  The callback of \<open>Array.from({ length: MAX_LABOUR + 1 }, (_, i) => ...)\<close>. At
  \<open>numLabour = 0\<close> the source computes \<open>(numLabour - 1) * LABOR_COST_PER_HOUR * 8\<close> with
  \<open>numLabour - 1 = -1\<close>, so the subtraction is done on integers.
  \<open>marginalProduct\<close> is a finite number, \<open>NaN\<close> or \<open>undefined\<close> (never \<open>Infinity\<close>: the
  table entries are finite), and the test \<open>marginalProduct > 0\<close> is false for the last two,
  so the division is only reached with a positive finite divisor.
\<close>

definition dataPoint :: "ProductionSchedule \<Rightarrow> real \<Rightarrow> nat \<Rightarrow> EconomicRecord" where
  "dataPoint productionSchedule price i =
    (let numLabour = i;
         totalProduction = orZero (arrayGet (production productionSchedule) numLabour);
         marginalProduct =
           (if numLabour > 0
            then jsSub (arrayGet (production productionSchedule) numLabour)
                       (arrayGet (production productionSchedule) (numLabour - 1))
            else jsRead (arrayGet (production productionSchedule) numLabour));
         totalRevenue = totalProduction * price;
         variableCost = real numLabour * LABOR_COST_PER_HOUR * 8;
         fixedCost = ProductionSchedule.fixedCost productionSchedule;
         totalCost = fixedCost + variableCost;
         totalProfit = totalRevenue - totalCost;
         marginalCost =
           (case marginalProduct of
              Num mp \<Rightarrow>
                (if mp > 0
                 then Num ((variableCost
                            - real_of_int (int numLabour - 1) * LABOR_COST_PER_HOUR * 8) / mp)
                 else Infinity)
            | _ \<Rightarrow> Infinity);
         averageTotalCost =
           (if totalProduction > 0 then Num (totalCost / totalProduction) else Infinity)
     in \<lparr>labour = numLabour,
         totalProduction = totalProduction,
         marginalProduct = marginalProduct,
         totalRevenue = totalRevenue,
         variableCost = variableCost,
         fixedCost = fixedCost,
         totalCost = totalCost,
         totalProfit = totalProfit,
         marginalCost = marginalCost,
         averageTotalCost = averageTotalCost\<rparr>)"

definition economicData :: "ProductionSchedule \<Rightarrow> real \<Rightarrow> EconomicRecord list" where
  "economicData productionSchedule price =
     map (dataPoint productionSchedule price) [0 ..< MAX_LABOUR + 1]"

text \<open>
  \<open>economicData.reduce((max, current) => current.totalProfit > max.totalProfit ? current : max,
  economicData[0])\<close>: a left-to-right scan; \<open>fold\<close> passes the element first and the
  accumulator second.
\<close>

definition maxProfitData :: "ProductionSchedule \<Rightarrow> real \<Rightarrow> EconomicRecord" where
  "maxProfitData productionSchedule price =
     (let ed = economicData productionSchedule price
      in fold (\<lambda>current mx. if totalProfit current > totalProfit mx then current else mx)
              ed (ed ! 0))"

definition validData :: "EconomicRecord list \<Rightarrow> EconomicRecord list" where
  "validData ed = filter (\<lambda>d. isFinite (averageTotalCost d) \<and> labour d > 0) ed"

definition minAtcData :: "ProductionSchedule \<Rightarrow> real \<Rightarrow> EconomicRecord" where
  "minAtcData productionSchedule price =
     (let ed = economicData productionSchedule price;
          vd = validData ed
      in if length vd = 0 then ed ! 0
         else fold (\<lambda>current mn.
                      if jsLess (averageTotalCost current) (averageTotalCost mn)
                      then current else mn)
                   vd (vd ! 0))"

section \<open>The curve chart (\<open>Chart\<close>)\<close>

text \<open>
  \<open>ChartPoint\<close> has the fields \<open>x\<close> and \<open>y\<close> in the source; they are \<open>px\<close> and \<open>py\<close> here,
  so that \<open>x\<close> and \<open>y\<close> stay free for variables.
\<close>

record ChartPoint =
  px :: real
  py :: real

record ChartDataset =
  label :: string
  data :: "ChartPoint list"
  color :: string

definition svgWidth :: real where "svgWidth = 320"
definition svgHeight :: real where "svgHeight = 200"
definition marginTop :: real where "marginTop = 20"
definition marginRight :: real where "marginRight = 20"
definition marginBottom :: real where "marginBottom = 30"
definition marginLeft :: real where "marginLeft = 40"

definition width :: real where
  "width = svgWidth - marginLeft - marginRight"

definition height :: real where
  "height = svgHeight - marginTop - marginBottom"

definition allPoints :: "ChartDataset list \<Rightarrow> ChartPoint list" where
  "allPoints datasets = concat (map data datasets)"

text \<open>\<open>Math.max(0, ...yValues)\<close> and \<open>Math.min(0, ...yValues)\<close>.\<close>

definition maxY :: "ChartDataset list \<Rightarrow> real" where
  "maxY datasets = fold max (map py (allPoints datasets)) 0"

definition minY :: "ChartDataset list \<Rightarrow> real" where
  "minY datasets = fold min (map py (allPoints datasets)) 0"

text \<open>
  \<open>xScale\<close> and \<open>yScale\<close> are closures over the plot extent and the bounds of the data;
  the captured values are parameters here, in the order extent (\<open>width\<close> or \<open>height\<close>),
  lower bound (\<open>minX\<close> or \<open>minY\<close>), upper bound (\<open>maxX\<close> or \<open>maxY\<close>).
  The source compares with \<open>===\<close> and returns before the division.
\<close>

definition xScale :: "real \<Rightarrow> real \<Rightarrow> real \<Rightarrow> real \<Rightarrow> real" where
  "xScale extent lo hi v =
     (if hi = lo then extent / 2
      else ((v - lo) / (hi - lo)) * extent)"

definition yScale :: "real \<Rightarrow> real \<Rightarrow> real \<Rightarrow> real \<Rightarrow> real" where
  "yScale extent lo hi v =
     (if hi = lo then extent / 2
      else extent - ((v - lo) / (hi - lo)) * extent)"

text \<open>
  The path string of the source (\<open>M x,y\<close>, \<open>L x,y\<close>, \<open>C x1,y1 x2,y2 x,y\<close>) is modelled as
  the list of its commands; the empty string is the empty list.
\<close>

datatype PathCommand =
    MoveTo real real
  | LineTo real real
  | CurveTo real real real real real real

text \<open>The point a command ends at.\<close>

fun endPoint :: "PathCommand \<Rightarrow> real \<times> real" where
  "endPoint (MoveTo a b) = (a, b)"
| "endPoint (LineTo a b) = (a, b)"
| "endPoint (CurveTo a1 b1 a2 b2 a b) = (a, b)"

text \<open>The body of the loop of \<open>createSmoothPath\<close> at index \<open>i\<close>.\<close>

definition curveSegment :: "ChartPoint list \<Rightarrow> nat \<Rightarrow> PathCommand" where
  "curveSegment scaledPoints i =
     (let p0 = (if i > 0 then scaledPoints ! (i - 1) else scaledPoints ! i);
          p1 = scaledPoints ! i;
          p2 = scaledPoints ! (i + 1);
          p3 = (if int i < int (length scaledPoints) - 2 then scaledPoints ! (i + 2) else p2);
          tension = 0.5;
          t1x = (px p2 - px p0) * tension;
          t1y = (py p2 - py p0) * tension;
          t2x = (px p3 - px p1) * tension;
          t2y = (py p3 - py p1) * tension;
          cp1 = \<lparr>px = px p1 + t1x, py = py p1 + t1y\<rparr>;
          cp2 = \<lparr>px = px p2 - t2x, py = py p2 - t2y\<rparr>
      in CurveTo (px cp1) (py cp1) (px cp2) (py cp2) (px p2) (py p2))"

text \<open>
  \<open>createSmoothPath\<close>, with the bounds the two scales capture (\<open>minX\<close>, \<open>maxX\<close>, \<open>minY\<close>,
  \<open>maxY\<close>) as parameters. The loop
  \<open>for (i = 0; i < scaledPoints.length - 1; i++)\<close> appends one command per index.
\<close>

definition createSmoothPath ::
  "real \<Rightarrow> real \<Rightarrow> real \<Rightarrow> real \<Rightarrow> ChartPoint list \<Rightarrow> PathCommand list" where
  "createSmoothPath xLo xHi yLo yHi points =
     (if length points < 2 then []
      else
        (let scaledPoints =
               map (\<lambda>p. \<lparr>px = xScale width xLo xHi (px p),
                           py = yScale height yLo yHi (py p)\<rparr>) points;
             path = [MoveTo (px (scaledPoints ! 0)) (py (scaledPoints ! 0))]
         in if length scaledPoints = 2
            then path @ [LineTo (px (scaledPoints ! 1)) (py (scaledPoints ! 1))]
            else path @ map (curveSegment scaledPoints) [0 ..< length scaledPoints - 1]))"

text \<open>
  The zero-crossing split of a dataset labelled \<open>Marginal Product of Labour\<close> or
  \<open>Total Profit\<close>. \<open>scanIntersection\<close> is the \<open>for\<close> loop over consecutive pairs: at the
  first pair that passes the test it pushes and unshifts the interpolated point (when the
  difference of the two y-values is not zero) and breaks.
\<close>

fun scanIntersection ::
  "ChartPoint list \<Rightarrow> ChartPoint list \<Rightarrow> ChartPoint list
     \<Rightarrow> ChartPoint list \<times> ChartPoint list" where
  "scanIntersection (p1 # p2 # rest) positiveData negativeData =
     (if (py p1 \<ge> 0 \<and> py p2 < 0) \<or> (py p1 \<le> 0 \<and> py p2 > 0)
      then
        (if py p2 - py p1 \<noteq> 0
         then
           (let xv = px p1 - py p1 * (px p2 - px p1) / (py p2 - py p1);
                intersectionPoint = \<lparr>px = xv, py = 0\<rparr>
            in if py p1 \<ge> 0
               then (positiveData @ [intersectionPoint], intersectionPoint # negativeData)
               else (intersectionPoint # positiveData, negativeData @ [intersectionPoint]))
         else (positiveData, negativeData))
      else scanIntersection (p2 # rest) positiveData negativeData)"
| "scanIntersection _ positiveData negativeData = (positiveData, negativeData)"

definition zeroCrossingSplit :: "ChartPoint list \<Rightarrow> ChartPoint list \<times> ChartPoint list" where
  "zeroCrossingSplit dsData =
     (let positiveData = filter (\<lambda>d. py d \<ge> 0) dsData;
          negativeData = filter (\<lambda>d. py d \<le> 0) dsData
      in scanIntersection dsData positiveData negativeData)"

text \<open>
  The invisible hover targets. \<open>uniqueXValues\<close> is
  \<open>[...new Set(allPoints.map(p => p.x))].sort((a,b) => a - b)\<close>. With no point at all the
  source's \<open>minX\<close> and \<open>maxX\<close> are infinite, \<open>uniqueXValues\<close> is empty and no rectangle is
  drawn; otherwise \<open>Math.min\<close> and \<open>Math.max\<close> run over a non-empty list.
\<close>

record HoverRect =
  rectX :: real
  rectY :: real
  rectWidth :: real
  rectHeight :: real

definition uniqueXValues :: "real list \<Rightarrow> real list" where
  "uniqueXValues xValues = sort (remdups xValues)"

definition columnWidth :: "real \<Rightarrow> real \<Rightarrow> real list \<Rightarrow> real" where
  "columnWidth minX maxX uniq =
     (if length uniq > 1
      then xScale width minX maxX (uniq ! 1) - xScale width minX maxX (uniq ! 0)
      else width)"

definition hoverRects :: "ChartDataset list \<Rightarrow> HoverRect list" where
  "hoverRects datasets =
     (case map px (allPoints datasets) of
        [] \<Rightarrow> []
      | v # vs \<Rightarrow>
          (let maxX = fold max vs v;
               minX = fold min vs v;
               uniq = uniqueXValues (v # vs);
               cw = columnWidth minX maxX uniq
           in map (\<lambda>xv. \<lparr>rectX = xScale width minX maxX xv - cw / 2,
                          rectY = 0,
                          rectWidth = cw,
                          rectHeight = height\<rparr>) uniq))"

section \<open>Saved scenarios\<close>

record Scenario =
  name :: string
  icon :: string
  maxProfit :: real
  optimalLabour :: nat
  priceAtSave :: real
  mcAtMaxProfit :: jsnum
  atcAtMaxProfit :: jsnum

definition newScenario :: "ProductionSchedule \<Rightarrow> real \<Rightarrow> Scenario" where
  "newScenario productionSchedule price =
     \<lparr>name = ProductionSchedule.name productionSchedule,
      icon = ProductionSchedule.icon productionSchedule,
      maxProfit = totalProfit (maxProfitData productionSchedule price),
      optimalLabour = labour (maxProfitData productionSchedule price),
      priceAtSave = price,
      mcAtMaxProfit = marginalCost (maxProfitData productionSchedule price),
      atcAtMaxProfit = averageTotalCost (maxProfitData productionSchedule price)\<rparr>"

text \<open>\<open>Array.prototype.findIndex\<close>: the first index that passes the test, or \<open>-1\<close>.\<close>

fun findIndex :: "('a \<Rightarrow> bool) \<Rightarrow> 'a list \<Rightarrow> int" where
  "findIndex P [] = - 1"
| "findIndex P (s # rest) =
     (if P s then 0
      else (let r = findIndex P rest in if r = - 1 then - 1 else r + 1))"

text \<open>The updater that \<open>handleSaveScenario\<close> passes to \<open>setSavedScenarios\<close>.\<close>

definition saveScenario :: "Scenario \<Rightarrow> Scenario list \<Rightarrow> Scenario list" where
  "saveScenario newSc prev =
     (let existingIndex = findIndex (\<lambda>s. Scenario.name s = Scenario.name newSc) prev
      in if existingIndex > - 1
         then (let updated = prev in updated[nat existingIndex := newSc])
         else prev @ [newSc])"

definition handleSaveScenario ::
  "ProductionSchedule \<Rightarrow> real \<Rightarrow> Scenario list \<Rightarrow> Scenario list" where
  "handleSaveScenario productionSchedule price prev =
     saveScenario (newScenario productionSchedule price) prev"

definition handleClearScenarios :: "Scenario list \<Rightarrow> Scenario list" where
  "handleClearScenarios prev = []"

text \<open>
  The scenario list is React state that starts as \<open>[]\<close> and is changed only by the two
  handlers; a session is a list of such events, applied in order.
\<close>

datatype ScenarioEvent = Save Scenario | Clear

fun applyEvent :: "ScenarioEvent \<Rightarrow> Scenario list \<Rightarrow> Scenario list" where
  "applyEvent (Save sc) prev = saveScenario sc prev"
| "applyEvent Clear prev = handleClearScenarios prev"

definition runEvents :: "ScenarioEvent list \<Rightarrow> Scenario list" where
  "runEvents evs = fold applyEvent evs []"

section \<open>Properties of the economic derivation\<close>

lemma length_economicData: "length (economicData s p) = MAX_LABOUR + 1"
  by (simp add: economicData_def)

lemma nth_economicData:
  "i \<le> MAX_LABOUR \<Longrightarrow> economicData s p ! i = dataPoint s p i"
  unfolding economicData_def by (simp add: nth_map_upt del: upt_Suc)

lemma labour_dataPoint: "labour (dataPoint s p i) = i"
  by (simp add: dataPoint_def Let_def)

lemma totalProduction_dataPoint:
  "totalProduction (dataPoint s p i) = orZero (arrayGet (production s) i)"
  by (simp add: dataPoint_def Let_def)

lemma variableCost_dataPoint: "variableCost (dataPoint s p i) = real i * 160"
  by (simp add: dataPoint_def Let_def LABOR_COST_PER_HOUR_def)

lemma marginalProduct_dataPoint:
  "marginalProduct (dataPoint s p i) =
     (if i > 0 then jsSub (arrayGet (production s) i) (arrayGet (production s) (i - 1))
      else jsRead (arrayGet (production s) i))"
  by (simp add: dataPoint_def Let_def)

lemma marginalCost_dataPoint:
  "marginalCost (dataPoint s p i) =
     (case marginalProduct (dataPoint s p i) of
        Num mp \<Rightarrow> (if mp > 0 then Num ((real i * 160 - (real_of_int (int i - 1)) * 160) / mp) else Infinity)
      | _ \<Rightarrow> Infinity)"
  by (simp add: dataPoint_def Let_def LABOR_COST_PER_HOUR_def split: jsnum.splits)

lemma marginalProduct_not_Infinity: "marginalProduct (dataPoint s p i) \<noteq> Infinity"
  by (simp add: marginalProduct_dataPoint jsSub_def jsRead_def split: option.splits)

lemma averageTotalCost_dataPoint:
  "averageTotalCost (dataPoint s p i) =
     (if totalProduction (dataPoint s p i) > 0
      then Num (totalCost (dataPoint s p i) / totalProduction (dataPoint s p i))
      else Infinity)"
  by (simp add: dataPoint_def Let_def)

lemma marginalProduct_in_table:
  assumes "i \<le> MAX_LABOUR" and "i < length (production s)"
  shows "marginalProduct (economicData s p ! i) =
           Num (if i = 0 then totalProduction (economicData s p ! 0)
                else totalProduction (economicData s p ! i)
                     - totalProduction (economicData s p ! (i - 1)))"
proof (cases i)
  case 0
  with assms show ?thesis
    by (simp add: nth_economicData marginalProduct_dataPoint totalProduction_dataPoint
          arrayGet_def orZero_def jsRead_def)
next
  case (Suc j)
  with assms have "j < length (production s)" "j \<le> MAX_LABOUR" by simp_all
  with assms Suc show ?thesis
    by (simp add: nth_economicData marginalProduct_dataPoint totalProduction_dataPoint
          arrayGet_def orZero_def jsSub_def)
qed

lemma catalogue_table_length:
  "s \<in> set PRODUCTION_SCHEDULES \<Longrightarrow> length (production s) = MAX_LABOUR + 1"
  by (auto simp: PRODUCTION_SCHEDULES_def standardOven_def conveyorBeltOven_def
        industrialKitchen_def MAX_LABOUR_def)

lemma totalProduction_table_or_zero:
  "j \<le> MAX_LABOUR \<Longrightarrow>
     totalProduction (economicData s p ! j) =
       (if j < length (production s) then production s ! j else 0)"
  by (simp add: nth_economicData totalProduction_dataPoint arrayGet_def orZero_def)

text \<open>
  Claim C1: for every capital configuration and every labour level \<open>i\<close> in \<open>[1, 10]\<close>,
  \<open>marginalProduct[i] = totalProduction[i] - totalProduction[i-1]\<close>, and
  \<open>marginalProduct[0] = totalProduction[0]\<close>, where \<open>totalProduction[j]\<close> is the table
  entry, or \<open>0\<close> past the end of the table. A capital configuration has a production table
  indexed by the labour levels \<open>0..MAX_LABOUR\<close>; every entry of \<open>PRODUCTION_SCHEDULES\<close>,
  the only schedules the program selects from, has exactly \<open>MAX_LABOUR + 1\<close> entries.
\<close>

theorem marginalProduct_is_difference:
  "(j \<le> MAX_LABOUR \<longrightarrow>
      totalProduction (economicData s p ! j) =
        (if j < length (production s) then production s ! j else 0))
   \<and> (s \<in> set PRODUCTION_SCHEDULES \<longrightarrow> length (production s) = MAX_LABOUR + 1)
   \<and> (MAX_LABOUR < length (production s) \<longrightarrow> i \<le> MAX_LABOUR \<longrightarrow>
        marginalProduct (economicData s p ! i) =
          Num (if i = 0 then totalProduction (economicData s p ! 0)
               else totalProduction (economicData s p ! i)
                    - totalProduction (economicData s p ! (i - 1))))"
proof (intro conjI impI)
  show "totalProduction (economicData s p ! j) =
        (if j < length (production s) then production s ! j else 0)" if "j \<le> MAX_LABOUR"
    using that by (rule totalProduction_table_or_zero)
  show "length (production s) = MAX_LABOUR + 1" if "s \<in> set PRODUCTION_SCHEDULES"
    using that by (rule catalogue_table_length)
  show "marginalProduct (economicData s p ! i) =
          Num (if i = 0 then totalProduction (economicData s p ! 0)
               else totalProduction (economicData s p ! i)
                    - totalProduction (economicData s p ! (i - 1)))"
    if "MAX_LABOUR < length (production s)" and "i \<le> MAX_LABOUR"
    using that by (intro marginalProduct_in_table) simp_all
qed

text \<open>
  The three schedules of the catalogue: the Standard Oven at labour 3 (\<open>45 - 25\<close>), the
  Industrial Kitchen at labour 10 (\<open>600 - 560\<close>) and the Conveyor Belt Oven at labour 0.
\<close>

theorem marginalProduct_is_difference_witness:
  "standardOven \<in> set PRODUCTION_SCHEDULES
   \<and> MAX_LABOUR < length (production standardOven)
   \<and> (3::nat) \<le> MAX_LABOUR
   \<and> totalProduction (economicData standardOven 15 ! 3) = 45
   \<and> totalProduction (economicData standardOven 15 ! 2) = 25
   \<and> marginalProduct (economicData standardOven 15 ! 3) = Num (45 - 25)
   \<and> marginalProduct (economicData industrialKitchen 15 ! 10) = Num (600 - 560)
   \<and> marginalProduct (economicData conveyorBeltOven 15 ! 0) = Num 0"
proof -
  have mem: "standardOven \<in> set PRODUCTION_SCHEDULES"
    "conveyorBeltOven \<in> set PRODUCTION_SCHEDULES"
    "industrialKitchen \<in> set PRODUCTION_SCHEDULES"
    by (simp_all add: PRODUCTION_SCHEDULES_def)
  have len: "MAX_LABOUR < length (production standardOven)"
    "MAX_LABOUR < length (production conveyorBeltOven)"
    "MAX_LABOUR < length (production industrialKitchen)"
    using marginalProduct_is_difference [of 0 standardOven 15 0]
      marginalProduct_is_difference [of 0 conveyorBeltOven 15 0]
      marginalProduct_is_difference [of 0 industrialKitchen 15 0] mem
    by simp_all
  have le: "(3::nat) \<le> MAX_LABOUR" "(2::nat) \<le> MAX_LABOUR" "(10::nat) \<le> MAX_LABOUR"
    "(9::nat) \<le> MAX_LABOUR" "(0::nat) \<le> MAX_LABOUR"
    by (simp_all add: MAX_LABOUR_def)
  have tp3: "totalProduction (economicData standardOven 15 ! 3) = 45"
    using marginalProduct_is_difference [of 3 standardOven 15 3] le
    by (simp add: standardOven_def)
  have tp2: "totalProduction (economicData standardOven 15 ! 2) = 25"
    using marginalProduct_is_difference [of 2 standardOven 15 3] le
    by (simp add: standardOven_def)
  have tp10: "totalProduction (economicData industrialKitchen 15 ! 10) = 600"
    using marginalProduct_is_difference [of 10 industrialKitchen 15 3] le
    by (simp add: industrialKitchen_def)
  have tp9: "totalProduction (economicData industrialKitchen 15 ! 9) = 560"
    using marginalProduct_is_difference [of 9 industrialKitchen 15 3] le
    by (simp add: industrialKitchen_def)
  have tp0: "totalProduction (economicData conveyorBeltOven 15 ! 0) = 0"
    using marginalProduct_is_difference [of 0 conveyorBeltOven 15 3] le
    by (simp add: conveyorBeltOven_def)
  have mp3: "marginalProduct (economicData standardOven 15 ! 3) = Num (45 - 25)"
    using marginalProduct_is_difference [of 3 standardOven 15 3] len le tp3 tp2 by simp
  have mp10: "marginalProduct (economicData industrialKitchen 15 ! 10) = Num (600 - 560)"
    using marginalProduct_is_difference [of 10 industrialKitchen 15 10] len le tp10 tp9
    by simp
  have mp0: "marginalProduct (economicData conveyorBeltOven 15 ! 0) = Num 0"
    using marginalProduct_is_difference [of 0 conveyorBeltOven 15 0] len le tp0 by simp
  from mem len le tp3 tp2 mp3 mp10 mp0 show ?thesis by simp
qed

text \<open>
  Claim C3: in the record at labour \<open>i\<close>, \<open>marginalCost\<close> is
  \<open>(variableCost[i] - variableCost[i-1]) / marginalProduct\<close> exactly when
  \<open>marginalProduct > 0\<close> and the value \<open>Infinity\<close> otherwise; \<open>averageTotalCost\<close> is
  \<open>totalCost / totalProduction\<close> exactly when \<open>totalProduction > 0\<close> and \<open>Infinity\<close>
  otherwise. Both are values of the record: \<open>dataPoint\<close> is a total function and has no
  error branch. At labour 0 there is no previous record and the source's
  \<open>(numLabour - 1) * 160\<close> is \<open>-160\<close>.
\<close>

theorem marginalCost_averageTotalCost_sentinel:
  assumes "i \<le> MAX_LABOUR"
  shows "let ed = economicData s p;
             r = ed ! i;
             previousVariableCost = (if i = 0 then - 160 else variableCost (ed ! (i - 1)))
         in (jsGtZero (marginalProduct r) \<longrightarrow>
               (\<exists>mp. marginalProduct r = Num mp \<and> 0 < mp \<and>
                     marginalCost r = Num ((variableCost r - previousVariableCost) / mp)))
          \<and> (\<not> jsGtZero (marginalProduct r) \<longrightarrow> marginalCost r = Infinity)
          \<and> (0 < totalProduction r \<longrightarrow>
                averageTotalCost r = Num (totalCost r / totalProduction r))
          \<and> (\<not> 0 < totalProduction r \<longrightarrow> averageTotalCost r = Infinity)"
proof -
  have prev: "(if i = 0 then - 160 else variableCost (economicData s p ! (i - 1)))
                = real_of_int (int i - 1) * 160"
    using assms by (cases i) (simp_all add: nth_economicData variableCost_dataPoint algebra_simps)
  have mc: "jsGtZero (marginalProduct (dataPoint s p i)) \<longrightarrow>
               (\<exists>mp. marginalProduct (dataPoint s p i) = Num mp \<and> 0 < mp \<and>
                  marginalCost (dataPoint s p i)
                    = Num ((real i * 160 - real_of_int (int i - 1) * 160) / mp))"
    using marginalProduct_not_Infinity [of s p i]
    by (cases "marginalProduct (dataPoint s p i)") (simp_all add: marginalCost_dataPoint)
  have mc': "\<not> jsGtZero (marginalProduct (dataPoint s p i)) \<longrightarrow>
               marginalCost (dataPoint s p i) = Infinity"
    using marginalProduct_not_Infinity [of s p i]
    by (cases "marginalProduct (dataPoint s p i)") (simp_all add: marginalCost_dataPoint)
  show ?thesis
    unfolding Let_def prev
    using assms mc mc'
    by (simp add: nth_economicData variableCost_dataPoint averageTotalCost_dataPoint)
qed

text \<open>
  Claim C10: at labour 0, if the first table entry is positive then \<open>marginalCost\<close> is the
  finite value \<open>160 / productionTable[0]\<close> (the previous variable cost is \<open>-160\<close>); the
  value \<open>Infinity\<close> occurs at labour 0 exactly when the first table entry is not positive
  (or the table is empty, where the read is \<open>undefined\<close>).
\<close>

theorem marginalCost_at_labour_zero:
  "(production s = p0 # rest \<longrightarrow> 0 < p0 \<longrightarrow>
      marginalCost (economicData s p ! 0) = Num (160 / p0))
   \<and> (marginalCost (economicData s p ! 0) = Infinity
        \<longleftrightarrow> (production s = [] \<or> hd (production s) \<le> 0))"
  by (cases "production s")
     (simp_all add: nth_economicData marginalCost_dataPoint marginalProduct_dataPoint
        arrayGet_def jsRead_def)


text \<open>
  The Standard Oven at price 15: labour 3 has marginal product 20 and labour 10 has
  marginal product \<open>-3\<close>; labour 0 produces nothing.
\<close>

theorem marginalCost_averageTotalCost_sentinel_witness:
  "(3::nat) \<le> MAX_LABOUR
   \<and> jsGtZero (marginalProduct (economicData standardOven 15 ! 3))
   \<and> marginalCost (economicData standardOven 15 ! 3) = Num ((480 - 320) / 20)
   \<and> \<not> jsGtZero (marginalProduct (economicData standardOven 15 ! 10))
   \<and> marginalCost (economicData standardOven 15 ! 10) = Infinity
   \<and> averageTotalCost (economicData standardOven 15 ! 3) = Num (580 / 45)
   \<and> averageTotalCost (economicData standardOven 15 ! 0) = Infinity"
proof -
  have h3: "(3::nat) \<le> MAX_LABOUR" and h10: "(10::nat) \<le> MAX_LABOUR"
    and h0: "(0::nat) \<le> MAX_LABOUR"
    by (simp_all add: MAX_LABOUR_def)
  have mp3: "marginalProduct (economicData standardOven 15 ! 3) = Num 20"
    and mp10: "marginalProduct (economicData standardOven 15 ! 10) = Num (- 3)"
    and tp3: "totalProduction (economicData standardOven 15 ! 3) = 45"
    and tp0: "totalProduction (economicData standardOven 15 ! 0) = 0"
    and vc3: "variableCost (economicData standardOven 15 ! 3) = 480"
    and vc2: "variableCost (economicData standardOven 15 ! 2) = 320"
    and tc3: "totalCost (economicData standardOven 15 ! 3) = 580"
    by (simp_all add: nth_economicData MAX_LABOUR_def dataPoint_def Let_def arrayGet_def
          orZero_def jsSub_def jsRead_def standardOven_def LABOR_COST_PER_HOUR_def)
  show ?thesis
    using marginalCost_averageTotalCost_sentinel [OF h3, of standardOven 15] marginalCost_averageTotalCost_sentinel [OF h10, of standardOven 15]
      marginalCost_averageTotalCost_sentinel [OF h0, of standardOven 15] h3
    by (simp add: Let_def mp3 mp10 tp3 tp0 vc3 vc2 tc3)
qed

text \<open>A table that starts at 5 gives \<open>160 / 5 = 32\<close>; the Standard Oven's starts at 0.\<close>

theorem marginalCost_at_labour_zero_witness:
  "production (standardOven\<lparr>production := [5, 10]\<rparr>) = 5 # [10] \<and> (0::real) < 5
   \<and> marginalCost (economicData (standardOven\<lparr>production := [5, 10]\<rparr>) 15 ! 0) = Num 32
   \<and> marginalCost (economicData standardOven 15 ! 0) = Infinity"
  using marginalCost_at_labour_zero [of "standardOven\<lparr>production := [5, 10]\<rparr>" 5 "[10]" 15]
    marginalCost_at_labour_zero [of standardOven 0 "tl (production standardOven)" 15]
  by (simp add: standardOven_def)

section \<open>Selecting the best record\<close>

text \<open>
  A left-to-right scan that replaces the accumulator only by a strictly better element
  returns the first best element: everything before it is strictly worse, everything
  after it is no better.
\<close>

lemma fold_keeps_first_best:
  fixes k :: "'a \<Rightarrow> real"
  assumes "\<forall>c\<in>set (a # xs). \<forall>m\<in>set (a # xs). better c m = (k m < k c)"
  shows "\<exists>pre post.
           a # xs = pre @ fold (\<lambda>c m. if better c m then c else m) xs a # post
           \<and> (\<forall>e\<in>set pre. k e < k (fold (\<lambda>c m. if better c m then c else m) xs a))
           \<and> (\<forall>e\<in>set post. k e \<le> k (fold (\<lambda>c m. if better c m then c else m) xs a))"
  using assms
proof (induction xs rule: rev_induct)
  case Nil
  show ?case by (intro exI [of _ "[]"]) simp
next
  case (snoc x xs)
  let ?step = "\<lambda>c m. if better c m then c else m"
  let ?m = "fold ?step xs a"
  from snoc.prems
  have sub: "\<forall>c\<in>set (a # xs). \<forall>m\<in>set (a # xs). better c m = (k m < k c)"
    by simp
  from snoc.IH [OF sub] obtain pre post where
    split: "a # xs = pre @ ?m # post"
    and pre: "\<forall>e\<in>set pre. k e < k ?m"
    and post: "\<forall>e\<in>set post. k e \<le> k ?m"
    by blast
  have m_in: "?m \<in> set (a # xs)"
    by (subst split) simp
  have all_le: "\<forall>e\<in>set (a # xs). k e \<le> k ?m"
  proof
    fix e assume "e \<in> set (a # xs)"
    then have "e \<in> set (pre @ ?m # post)" by (simp only: split [symmetric])
    then show "k e \<le> k ?m" using pre post by (auto intro: less_imp_le)
  qed
  have cmp: "better x ?m = (k ?m < k x)"
  proof -
    have "x \<in> set (a # xs @ [x])" by simp
    moreover have "?m \<in> set (a # xs @ [x])" using m_in by auto
    ultimately show ?thesis using snoc.prems by blast
  qed
  show ?case
  proof (cases "better x ?m")
    case True
    then have res: "fold ?step (xs @ [x]) a = x" by simp
    have lt: "\<forall>e\<in>set (a # xs). k e < k x"
      using all_le True cmp by fastforce
    have "a # xs @ [x] = (a # xs) @ x # []" by simp
    with lt show ?thesis
      unfolding res by (intro exI [of _ "a # xs"] exI [of _ "[]"]) simp
  next
    case False
    then have res: "fold ?step (xs @ [x]) a = ?m" by simp
    from False cmp have le: "k x \<le> k ?m" by simp
    have "a # xs @ [x] = pre @ ?m # (post @ [x])"
      using split by simp
    with pre post le show ?thesis
      unfolding res by (intro exI [of _ pre] exI [of _ "post @ [x]"]) simp
  qed
qed

lemma first_best_index:
  fixes k :: "'a \<Rightarrow> real"
  assumes ne: "ed \<noteq> []"
    and split: "ed ! 0 # ed = pre @ m # post"
    and pre: "\<forall>e\<in>set pre. k e < k m"
    and post: "\<forall>e\<in>set post. k e \<le> k m"
  shows "\<exists>j<length ed. ed ! j = m \<and> (\<forall>i<j. k (ed ! i) < k m) \<and> (\<forall>e\<in>set ed. k e \<le> k m)"
proof (cases pre)
  case Nil
  from split Nil have m: "ed ! 0 = m" by auto
  from split Nil have ed: "ed = post" by auto
  have le: "\<forall>e\<in>set ed. k e \<le> k m" unfolding ed using post by simp
  from ne have "0 < length ed" by simp
  with m le show ?thesis by blast
next
  case (Cons b pre')
  with split have ed: "ed = pre' @ m # post" by simp
  have sub: "set pre' \<subseteq> set pre" using Cons by auto
  have j: "length pre' < length ed" using ed by simp
  have nth: "ed ! length pre' = m" using ed by simp
  have before: "\<forall>i<length pre'. k (ed ! i) < k m"
  proof (intro allI impI)
    fix i assume i: "i < length pre'"
    then have "pre' ! i \<in> set pre" using sub by (auto simp: subset_iff)
    moreover have "ed ! i = pre' ! i" using i ed by (simp add: nth_append)
    ultimately show "k (ed ! i) < k m" using pre by simp
  qed
  have "\<forall>e\<in>set ed. k e \<le> k m"
    using pre post sub by (subst ed) (auto intro: less_imp_le)
  with j nth before show ?thesis by blast
qed


lemma economicData_not_Nil: "economicData s p \<noteq> []"
  using length_economicData [of s p] by auto

lemma isFinite_iff: "isFinite v \<longleftrightarrow> (\<exists>a. v = Num a)"
  by (cases v) simp_all

text \<open>
  Claim C2: \<open>maxProfitData\<close> has a \<open>totalProfit\<close> at least that of every record of the
  derived sequence, and among the records with the maximal profit it is the one with the
  lowest labour: it sits at index \<open>labour\<close>, and every record before it has a strictly
  smaller profit.
\<close>

theorem maxProfitData_first_maximum:
  "let ed = economicData s p; m = maxProfitData s p
   in (\<forall>r\<in>set ed. totalProfit r \<le> totalProfit m)
    \<and> labour m \<le> MAX_LABOUR
    \<and> ed ! labour m = m
    \<and> (\<forall>j<labour m. totalProfit (ed ! j) < totalProfit m)
    \<and> (\<forall>r\<in>set ed. totalProfit r = totalProfit m \<longrightarrow> labour m \<le> labour r)"
proof -
  let ?ed = "economicData s p"
  let ?better = "\<lambda>c m::EconomicRecord. totalProfit c > totalProfit m"
  let ?m = "fold (\<lambda>c m. if ?better c m then c else m) ?ed (?ed ! 0)"
  have m_def: "maxProfitData s p = ?m"
    by (simp add: maxProfitData_def Let_def)
  have "\<forall>c\<in>set (?ed ! 0 # ?ed). \<forall>m\<in>set (?ed ! 0 # ?ed).
          ?better c m = (totalProfit m < totalProfit c)"
    by simp
  from fold_keeps_first_best [of "?ed ! 0" ?ed ?better totalProfit, OF this]
  obtain pre post where split: "?ed ! 0 # ?ed = pre @ ?m # post"
    and pre: "\<forall>e\<in>set pre. totalProfit e < totalProfit ?m"
    and post: "\<forall>e\<in>set post. totalProfit e \<le> totalProfit ?m"
    by blast
  from first_best_index [OF economicData_not_Nil split pre post]
  obtain j where j: "j < length ?ed" and nth: "?ed ! j = ?m"
    and before: "\<forall>i<j. totalProfit (?ed ! i) < totalProfit ?m"
    and all: "\<forall>e\<in>set ?ed. totalProfit e \<le> totalProfit ?m"
    by blast
  from j have j_le: "j \<le> MAX_LABOUR" by (simp add: length_economicData)
  have lab: "labour ?m = j"
    using nth [symmetric] j_le by (simp add: nth_economicData labour_dataPoint)
  have ties: "\<forall>r\<in>set ?ed. totalProfit r = totalProfit ?m \<longrightarrow> j \<le> labour r"
  proof (intro ballI impI)
    fix r assume "r \<in> set ?ed" and eq: "totalProfit r = totalProfit ?m"
    then obtain i where i: "i < length ?ed" and r: "?ed ! i = r"
      by (auto simp: in_set_conv_nth)
    from i have "i \<le> MAX_LABOUR" by (simp add: length_economicData)
    then have "labour r = i"
      using r [symmetric] by (simp add: nth_economicData labour_dataPoint)
    moreover have "\<not> i < j" using before eq r by auto
    ultimately show "j \<le> labour r" by simp
  qed
  show ?thesis
    unfolding Let_def m_def lab
    using all j_le nth before ties by blast
qed

text \<open>
  Claim C8: \<open>minAtcData\<close> is a record with labour \<open>> 0\<close> whose \<open>averageTotalCost\<close> is finite
  and least among the finite average costs of the records with labour \<open>> 0\<close>; when no
  record with labour \<open>> 0\<close> has a finite average cost, it is the first record of the
  sequence, whose labour is 0.
\<close>

theorem minAtcData_least_or_fallback:
  "let ed = economicData s p; m = minAtcData s p
   in (validData ed = [] \<longleftrightarrow>
         (\<forall>r\<in>set ed. 0 < labour r \<longrightarrow> \<not> isFinite (averageTotalCost r)))
    \<and> (validData ed = [] \<longrightarrow> m = ed ! 0 \<and> labour m = 0)
    \<and> (validData ed \<noteq> [] \<longrightarrow>
          m \<in> set ed \<and> 0 < labour m
          \<and> (\<exists>a. averageTotalCost m = Num a
                \<and> (\<forall>r\<in>set ed. \<forall>b. 0 < labour r \<and> averageTotalCost r = Num b \<longrightarrow> a \<le> b)))"
proof -
  let ?ed = "economicData s p"
  let ?vd = "validData ?ed"
  let ?k = "\<lambda>r::EconomicRecord. - (case averageTotalCost r of Num a \<Rightarrow> a | _ \<Rightarrow> 0)"
  let ?better = "\<lambda>c m::EconomicRecord. jsLess (averageTotalCost c) (averageTotalCost m)"
  let ?m = "fold (\<lambda>c m. if ?better c m then c else m) ?vd (?vd ! 0)"
  have empty_iff: "?vd = [] \<longleftrightarrow>
      (\<forall>r\<in>set ?ed. 0 < labour r \<longrightarrow> \<not> isFinite (averageTotalCost r))"
    by (auto simp: validData_def filter_empty_conv)
  have fallback: "?vd = [] \<longrightarrow> minAtcData s p = ?ed ! 0 \<and> labour (minAtcData s p) = 0"
    by (simp add: minAtcData_def Let_def nth_economicData labour_dataPoint)
  have main: "minAtcData s p \<in> set ?ed \<and> 0 < labour (minAtcData s p)
          \<and> (\<exists>a. averageTotalCost (minAtcData s p) = Num a
                \<and> (\<forall>r\<in>set ?ed. \<forall>b. 0 < labour r \<and> averageTotalCost r = Num b \<longrightarrow> a \<le> b))"
    if ne: "?vd \<noteq> []"
  proof -
    have m_def: "minAtcData s p = ?m"
      using ne by (simp add: minAtcData_def Let_def)
    from ne have hd_in: "?vd ! 0 \<in> set ?vd" by simp
    then have set_eq: "set (?vd ! 0 # ?vd) = set ?vd" by auto
    have vd_fin: "\<exists>a. averageTotalCost r = Num a" if "r \<in> set ?vd" for r
      using that by (auto simp: validData_def isFinite_iff)
    have "\<forall>c\<in>set (?vd ! 0 # ?vd). \<forall>m\<in>set (?vd ! 0 # ?vd). ?better c m = (?k m < ?k c)"
      unfolding set_eq
    proof (intro ballI)
      fix c m assume "c \<in> set ?vd" "m \<in> set ?vd"
      then obtain a b where "averageTotalCost c = Num a" "averageTotalCost m = Num b"
        using vd_fin by blast
      then show "?better c m = (?k m < ?k c)" by simp
    qed
    from fold_keeps_first_best [of "?vd ! 0" ?vd ?better ?k, OF this]
    obtain pre post where split: "?vd ! 0 # ?vd = pre @ ?m # post"
      and pre: "\<forall>e\<in>set pre. ?k e < ?k ?m"
      and post: "\<forall>e\<in>set post. ?k e \<le> ?k ?m"
      by blast
    have "?m \<in> set (?vd ! 0 # ?vd)" by (subst split) simp
    then have m_in: "?m \<in> set ?vd" unfolding set_eq .
    have best: "?k e \<le> ?k ?m" if "e \<in> set ?vd" for e
    proof -
      from that have "e \<in> set (pre @ ?m # post)"
        using set_eq split by metis
      then show ?thesis using pre post by (auto intro: less_imp_le)
    qed
    from m_in have m_ed: "?m \<in> set ?ed" and m_lab: "0 < labour ?m"
      by (simp_all add: validData_def)
    from vd_fin [OF m_in] obtain a where a: "averageTotalCost ?m = Num a" by blast
    have least: "\<forall>r\<in>set ?ed. \<forall>b. 0 < labour r \<and> averageTotalCost r = Num b \<longrightarrow> a \<le> b"
    proof (intro ballI allI impI)
      fix r b assume r: "r \<in> set ?ed" and rb: "0 < labour r \<and> averageTotalCost r = Num b"
      then have "r \<in> set ?vd" by (simp add: validData_def)
      from best [OF this] show "a \<le> b" using a rb by simp
    qed
    show ?thesis unfolding m_def using m_ed m_lab a least by blast
  qed
  show ?thesis
    unfolding Let_def using empty_iff fallback main by blast
qed


lemma totalProfit_dataPoint:
  "totalProfit (dataPoint s p i) =
     orZero (arrayGet (production s) i) * p - (ProductionSchedule.fixedCost s + real i * 160)"
  by (simp add: dataPoint_def Let_def LABOR_COST_PER_HOUR_def)

lemma totalCost_dataPoint:
  "totalCost (dataPoint s p i) = ProductionSchedule.fixedCost s + real i * 160"
  by (simp add: dataPoint_def Let_def LABOR_COST_PER_HOUR_def)

lemma economicData_unfold:
  "economicData s p = map (dataPoint s p) [0, 1, 2, 3, 4, 5, 6, 7, 8, 9, 10]"
proof -
  have "[0 ..< MAX_LABOUR + 1] = [0, 1, 2, 3, 4, 5, 6, 7, 8, 9, 10]"
    unfolding MAX_LABOUR_def by (simp add: upt_conv_Cons eval_nat_numeral)
  then show ?thesis by (simp only: economicData_def)
qed

lemma maxProfit_standardOven_16:
  "maxProfitData standardOven 16 = dataPoint standardOven 16 4"
  by (simp add: maxProfitData_def economicData_unfold Let_def totalProfit_dataPoint
        arrayGet_def orZero_def standardOven_def)

text \<open>
  The Standard Oven at price 16: labour 4 and labour 5 both give the maximal profit 220,
  and the record at labour 4 is returned.
\<close>

theorem maxProfitData_first_maximum_witness:
  "economicData standardOven 16 ! 5 \<in> set (economicData standardOven 16)
   \<and> totalProfit (economicData standardOven 16 ! 5) = totalProfit (maxProfitData standardOven 16)
   \<and> labour (maxProfitData standardOven 16) = 4
   \<and> labour (maxProfitData standardOven 16) \<le> labour (economicData standardOven 16 ! 5)
   \<and> totalProfit (economicData standardOven 16 ! 3) < totalProfit (maxProfitData standardOven 16)"
proof -
  have in5: "economicData standardOven 16 ! 5 \<in> set (economicData standardOven 16)"
    by (simp add: length_economicData MAX_LABOUR_def)
  have eq5: "totalProfit (economicData standardOven 16 ! 5)
               = totalProfit (maxProfitData standardOven 16)"
    unfolding maxProfit_standardOven_16
    by (simp add: nth_economicData MAX_LABOUR_def
          totalProfit_dataPoint arrayGet_def orZero_def standardOven_def)
  have lab: "labour (maxProfitData standardOven 16) = 4"
    by (simp add: maxProfit_standardOven_16 labour_dataPoint)
  show ?thesis
    using maxProfitData_first_maximum [of standardOven 16] in5 eq5 lab
    by (simp add: Let_def)
qed

lemma atc_cases:
  "averageTotalCost (dataPoint s p i) =
     (if 0 < orZero (arrayGet (production s) i)
      then Num ((ProductionSchedule.fixedCost s + real i * 160) / orZero (arrayGet (production s) i))
      else Infinity)"
  by (simp add: averageTotalCost_dataPoint totalProduction_dataPoint totalCost_dataPoint)

lemma minAtc_standardOven_15:
  "minAtcData standardOven 15 = dataPoint standardOven 15 4"
  by (simp add: minAtcData_def validData_def economicData_unfold Let_def atc_cases
        labour_dataPoint arrayGet_def orZero_def standardOven_def)

text \<open>
  The Standard Oven at price 15 has its least average cost, \<open>740 / 60\<close>, at labour 4; with
  an empty production table every average cost is \<open>Infinity\<close> and the record at labour 0 is
  returned.
\<close>

theorem minAtcData_least_or_fallback_witness:
  "validData (economicData standardOven 15) \<noteq> []
   \<and> labour (minAtcData standardOven 15) = 4
   \<and> averageTotalCost (minAtcData standardOven 15) = Num (740 / 60)
   \<and> validData (economicData (standardOven\<lparr>production := []\<rparr>) 15) = []
   \<and> labour (minAtcData (standardOven\<lparr>production := []\<rparr>) 15) = 0"
proof -
  have ne: "validData (economicData standardOven 15) \<noteq> []"
    by (simp add: validData_def economicData_unfold atc_cases
        labour_dataPoint arrayGet_def orZero_def standardOven_def)
  have lab: "labour (minAtcData standardOven 15) = 4"
    and atc: "averageTotalCost (minAtcData standardOven 15) = Num (740 / 60)"
    unfolding minAtc_standardOven_15
    by (simp_all add: labour_dataPoint atc_cases arrayGet_def
          orZero_def standardOven_def)
  have emp: "validData (economicData (standardOven\<lparr>production := []\<rparr>) 15) = []"
    by (simp add: validData_def economicData_unfold atc_cases arrayGet_def orZero_def)
  have fb: "labour (minAtcData (standardOven\<lparr>production := []\<rparr>) 15) = 0"
    using minAtcData_least_or_fallback [of "standardOven\<lparr>production := []\<rparr>" 15, unfolded Let_def] emp
    by blast
  have "minAtcData standardOven 15 \<in> set (economicData standardOven 15)"
    using minAtcData_least_or_fallback [of standardOven 15, unfolded Let_def] ne by blast
  with ne lab atc emp fb show ?thesis by simp
qed

section \<open>Properties of the chart\<close>

lemma maxY_zero_series:
  "maxY [\<lparr>label = l, data = map (\<lambda>xv. \<lparr>px = xv, py = 0\<rparr>) xs, color = c\<rparr>] = 0"
proof -
  have "fold max (map (\<lambda>xv. 0) xs) (0::real) = 0" by (induction xs) simp_all
  then show ?thesis by (simp add: maxY_def allPoints_def comp_def)
qed

lemma minY_zero_series:
  "minY [\<lparr>label = l, data = map (\<lambda>xv. \<lparr>px = xv, py = 0\<rparr>) xs, color = c\<rparr>] = 0"
proof -
  have "fold min (map (\<lambda>xv. 0) xs) (0::real) = 0" by (induction xs) simp_all
  then show ?thesis by (simp add: minY_def allPoints_def comp_def)
qed

text \<open>
  Claim C6: when the lower and the upper bound of the data coincide, both scale functions
  return half of the extent for every input value and every extent, without dividing; in
  particular the value 5 on the interval \<open>[3, 3]\<close> with extent 100 is mapped to 50 by
  either scale. A series whose y-values are all zero has \<open>minY = maxY = 0\<close> and is mapped
  to \<open>height / 2\<close>.
\<close>

theorem scale_degenerate_midpoint:
  "xScale extent lo lo v = extent / 2
   \<and> yScale extent lo lo v = extent / 2
   \<and> xScale 100 3 3 5 = 50
   \<and> yScale 100 3 3 5 = 50
   \<and> yScale height
        (minY [\<lparr>label = l, data = map (\<lambda>xv. \<lparr>px = xv, py = 0\<rparr>) xs, color = c\<rparr>])
        (maxY [\<lparr>label = l, data = map (\<lambda>xv. \<lparr>px = xv, py = 0\<rparr>) xs, color = c\<rparr>]) v
      = height / 2"
  by (simp add: xScale_def yScale_def maxY_zero_series minY_zero_series)

lemma endPoint_curveSegment:
  "endPoint (curveSegment sp i) = (px (sp ! (i + 1)), py (sp ! (i + 1)))"
  by (simp add: curveSegment_def Let_def)

text \<open>
  Claim C5: \<open>createSmoothPath\<close> maps fewer than two points to the empty path, exactly two
  points to a move to the first followed by one straight line to the second, and three or
  more points to a path that starts at the scaled first point and ends at the scaled last
  point (each command ends at the scaled position of the point with its index).
\<close>

theorem createSmoothPath_shape:
  "(length points < 2 \<longrightarrow> createSmoothPath xLo xHi yLo yHi points = [])
   \<and> (points = [a, b] \<longrightarrow>
        createSmoothPath xLo xHi yLo yHi points =
          [MoveTo (xScale width xLo xHi (px a)) (yScale height yLo yHi (py a)),
           LineTo (xScale width xLo xHi (px b)) (yScale height yLo yHi (py b))])
   \<and> (3 \<le> length points \<longrightarrow>
        length (createSmoothPath xLo xHi yLo yHi points) = length points
        \<and> hd (createSmoothPath xLo xHi yLo yHi points) =
            MoveTo (xScale width xLo xHi (px (hd points)))
                   (yScale height yLo yHi (py (hd points)))
        \<and> endPoint (last (createSmoothPath xLo xHi yLo yHi points)) =
            (xScale width xLo xHi (px (last points)),
             yScale height yLo yHi (py (last points)))
        \<and> (\<forall>i<length points.
              endPoint (createSmoothPath xLo xHi yLo yHi points ! i) =
                (xScale width xLo xHi (px (points ! i)),
                 yScale height yLo yHi (py (points ! i)))))"
proof (intro conjI impI)
  show "createSmoothPath xLo xHi yLo yHi points = []" if "length points < 2"
    using that by (simp add: createSmoothPath_def)
  show "createSmoothPath xLo xHi yLo yHi points =
          [MoveTo (xScale width xLo xHi (px a)) (yScale height yLo yHi (py a)),
           LineTo (xScale width xLo xHi (px b)) (yScale height yLo yHi (py b))]"
    if "points = [a, b]"
    using that by (simp add: createSmoothPath_def Let_def)
next
  assume len: "3 \<le> length points"
  let ?sp = "map (\<lambda>p. \<lparr>px = xScale width xLo xHi (px p),
                         py = yScale height yLo yHi (py p)\<rparr>) points"
  let ?n = "length points"
  have path: "createSmoothPath xLo xHi yLo yHi points =
                MoveTo (px (?sp ! 0)) (py (?sp ! 0)) # map (curveSegment ?sp) [0 ..< ?n - 1]"
    using len by (simp add: createSmoothPath_def Let_def)
  have ne: "points \<noteq> []" using len by auto
  show "length (createSmoothPath xLo xHi yLo yHi points) = length points"
    unfolding path using len by simp
  show "hd (createSmoothPath xLo xHi yLo yHi points) =
            MoveTo (xScale width xLo xHi (px (hd points)))
                   (yScale height yLo yHi (py (hd points)))"
    unfolding path using ne by (simp add: hd_conv_nth)
  have nth: "endPoint (createSmoothPath xLo xHi yLo yHi points ! i) =
                (xScale width xLo xHi (px (points ! i)),
                 yScale height yLo yHi (py (points ! i)))" if "i < ?n" for i
  proof (cases i)
    case 0
    then show ?thesis unfolding path using ne by simp
  next
    case (Suc j)
    with that have j: "j < ?n - 1" by simp
    then show ?thesis
      unfolding path Suc using that Suc
      by (simp add: endPoint_curveSegment del: upt_Suc)
  qed
  then show "\<forall>i<length points.
              endPoint (createSmoothPath xLo xHi yLo yHi points ! i) =
                (xScale width xLo xHi (px (points ! i)),
                 yScale height yLo yHi (py (points ! i)))"
    by blast
  have "last (createSmoothPath xLo xHi yLo yHi points)
          = createSmoothPath xLo xHi yLo yHi points ! (?n - 1)"
    using len by (subst last_conv_nth) (simp_all add: path)
  moreover have "last points = points ! (?n - 1)"
    using ne by (simp add: last_conv_nth)
  ultimately show "endPoint (last (createSmoothPath xLo xHi yLo yHi points)) =
            (xScale width xLo xHi (px (last points)),
             yScale height yLo yHi (py (last points)))"
    using nth [of "?n - 1"] len by simp
qed


text \<open>
  One, two and three points on a chart with x-range \<open>[0, 2]\<close> and y-range \<open>[0, 15]\<close>; the
  plot is 260 wide and 150 high.
\<close>

theorem createSmoothPath_shape_witness:
  "length [\<lparr>px = 0, py = 5\<rparr>] < 2
   \<and> createSmoothPath 0 2 0 15 [\<lparr>px = 0, py = 5\<rparr>] = []
   \<and> createSmoothPath 0 2 0 15 [\<lparr>px = 0, py = 0\<rparr>, \<lparr>px = 2, py = 15\<rparr>]
       = [MoveTo 0 150, LineTo 260 0]
   \<and> 3 \<le> length [\<lparr>px = 0, py = 0\<rparr>, \<lparr>px = 1, py = 10\<rparr>, \<lparr>px = 2, py = 15\<rparr>]
   \<and> hd (createSmoothPath 0 2 0 15
            [\<lparr>px = 0, py = 0\<rparr>, \<lparr>px = 1, py = 10\<rparr>, \<lparr>px = 2, py = 15\<rparr>])
       = MoveTo 0 150
   \<and> endPoint (last (createSmoothPath 0 2 0 15
            [\<lparr>px = 0, py = 0\<rparr>, \<lparr>px = 1, py = 10\<rparr>, \<lparr>px = 2, py = 15\<rparr>]))
       = (260, 0)"
  using createSmoothPath_shape [of "[\<lparr>px = 0, py = 5\<rparr>]" 0 2 0 15]
    createSmoothPath_shape [of "[\<lparr>px = 0, py = 0\<rparr>, \<lparr>px = 2, py = 15\<rparr>]" 0 2 0 15
          "\<lparr>px = 0, py = 0\<rparr>" "\<lparr>px = 2, py = 15\<rparr>"]
    createSmoothPath_shape [of "[\<lparr>px = 0, py = 0\<rparr>, \<lparr>px = 1, py = 10\<rparr>, \<lparr>px = 2, py = 15\<rparr>]" 0 2 0 15]
  by (simp add: xScale_def yScale_def width_def height_def svgWidth_def svgHeight_def
        marginTop_def marginBottom_def marginLeft_def marginRight_def)


subsection \<open>The zero-crossing split\<close>

text \<open>
  The points of the dataset \<open>Marginal Product of Labour\<close> that the application draws for
  the Standard Oven, at any price.
\<close>

lemma marginalProduct_series_standardOven:
  "map (\<lambda>d. (real (labour d), marginalProduct d)) (economicData standardOven price) =
     [(0, Num 0), (1, Num 10), (2, Num 15), (3, Num 20), (4, Num 15), (5, Num 10),
      (6, Num 5), (7, Num 2), (8, Num 1), (9, Num 0), (10, Num (- 3))]"
  by (simp add: economicData_unfold labour_dataPoint marginalProduct_dataPoint arrayGet_def
        jsSub_def jsRead_def standardOven_def)

text \<open>
  The two points \<open>(0, 5)\<close>, \<open>(1, -3)\<close>: the crossing is at \<open>x = 0.625\<close>; the non-negative
  list ends with it and the negative list starts with it.
\<close>

lemma zeroCrossingSplit_example:
  "zeroCrossingSplit [\<lparr>px = 0, py = 5\<rparr>, \<lparr>px = 1, py = - 3\<rparr>] =
     ([\<lparr>px = 0, py = 5\<rparr>, \<lparr>px = 0.625, py = 0\<rparr>],
      [\<lparr>px = 0.625, py = 0\<rparr>, \<lparr>px = 1, py = - 3\<rparr>])"
  by (simp add: zeroCrossingSplit_def Let_def)

text \<open>
  Claim C4: at the first consecutive pair whose y-values lie on opposite sides of zero the
  interpolated point \<open>(x0, 0)\<close> is put into both lists, appended to the list the curve
  leaves and prepended to the list it enters. The loop's test \<open>y1 <= 0 && y2 > 0\<close> also
  accepts a pair that starts at zero and rises, and the direction test \<open>p1.y >= 0\<close> then
  takes the branch for a falling curve. On the marginal-product series of the Standard
  Oven the pair \<open>(0, 0)\<close>, \<open>(1, 10)\<close> is accepted: the point \<open>(0, 0)\<close> is appended to the
  non-negative list after \<open>(9, 0)\<close> and prepended to the negative list, the loop breaks,
  and the change of sign between labour 9 and labour 10 is never examined.
\<close>

theorem zeroCrossingSplit_marginalProduct_series:
  "zeroCrossingSplit
     [\<lparr>px = 0, py = 0\<rparr>, \<lparr>px = 1, py = 10\<rparr>, \<lparr>px = 2, py = 15\<rparr>, \<lparr>px = 3, py = 20\<rparr>,
      \<lparr>px = 4, py = 15\<rparr>, \<lparr>px = 5, py = 10\<rparr>, \<lparr>px = 6, py = 5\<rparr>, \<lparr>px = 7, py = 2\<rparr>,
      \<lparr>px = 8, py = 1\<rparr>, \<lparr>px = 9, py = 0\<rparr>, \<lparr>px = 10, py = - 3\<rparr>]
   = ([\<lparr>px = 0, py = 0\<rparr>, \<lparr>px = 1, py = 10\<rparr>, \<lparr>px = 2, py = 15\<rparr>, \<lparr>px = 3, py = 20\<rparr>,
       \<lparr>px = 4, py = 15\<rparr>, \<lparr>px = 5, py = 10\<rparr>, \<lparr>px = 6, py = 5\<rparr>, \<lparr>px = 7, py = 2\<rparr>,
       \<lparr>px = 8, py = 1\<rparr>, \<lparr>px = 9, py = 0\<rparr>, \<lparr>px = 0, py = 0\<rparr>],
      [\<lparr>px = 0, py = 0\<rparr>, \<lparr>px = 0, py = 0\<rparr>, \<lparr>px = 9, py = 0\<rparr>, \<lparr>px = 10, py = - 3\<rparr>])"
  by (simp add: zeroCrossingSplit_def Let_def)

subsection \<open>The hover targets\<close>

lemma set_uniqueXValues: "set (uniqueXValues xs) = set xs"
  by (simp add: uniqueXValues_def)

lemma distinct_uniqueXValues: "distinct (uniqueXValues xs)"
  by (simp add: uniqueXValues_def)

lemma hoverRects_Cons:
  assumes "map px (allPoints ds) = v # vs"
  shows "hoverRects ds =
           map (\<lambda>xv. \<lparr>rectX = xScale width (Min (set (v # vs))) (Max (set (v # vs))) xv
                               - columnWidth (Min (set (v # vs))) (Max (set (v # vs)))
                                   (uniqueXValues (v # vs)) / 2,
                         rectY = 0,
                         rectWidth = columnWidth (Min (set (v # vs))) (Max (set (v # vs)))
                                       (uniqueXValues (v # vs)),
                         rectHeight = height\<rparr>)
               (uniqueXValues (v # vs))"
  using assms
  by (simp add: hoverRects_def Let_def Min.set_eq_fold Max.set_eq_fold del: set_simps)

lemma xScale_diff:
  "lo \<noteq> hi \<Longrightarrow> xScale w lo hi b - xScale w lo hi a = (b - a) / (hi - lo) * w"
proof -
  assume ne: "lo \<noteq> hi"
  have "xScale w lo hi b - xScale w lo hi a
          = ((b - lo) / (hi - lo) - (a - lo) / (hi - lo)) * w"
    using ne by (simp add: xScale_def left_diff_distrib)
  also have "(b - lo) / (hi - lo) - (a - lo) / (hi - lo) = ((b - lo) - (a - lo)) / (hi - lo)"
    by (simp add: diff_divide_distrib)
  finally show ?thesis by simp
qed

lemma two_columns_spread:
  assumes "1 < length (uniqueXValues xs)"
  shows "Min (set xs) \<noteq> Max (set xs)"
proof
  assume eq: "Min (set xs) = Max (set xs)"
  let ?u = "uniqueXValues xs"
  from assms have pos: "0 < length ?u" by linarith
  have "?u ! 0 \<in> set ?u" by (rule nth_mem [OF pos])
  then have in0: "?u ! 0 \<in> set xs" by (simp only: set_uniqueXValues)
  have "?u ! 1 \<in> set ?u" by (rule nth_mem [OF assms])
  then have in1: "?u ! 1 \<in> set xs" by (simp only: set_uniqueXValues)
  have ne: "?u ! 0 \<noteq> ?u ! 1"
    using nth_eq_iff_index_eq [OF distinct_uniqueXValues [of xs] pos assms] by simp
  have "Min (set xs) \<le> ?u ! 0" "?u ! 0 \<le> Max (set xs)"
       "Min (set xs) \<le> ?u ! 1" "?u ! 1 \<le> Max (set xs)"
    using in0 in1 by simp_all
  with eq ne show False by simp
qed

text \<open>
  Claim C7, as amended: there is one hover rectangle per distinct x-value; each is centred
  on the scaled x-value of its column, starts at \<open>y = 0\<close> and has the full plot height;
  all of them have the same width, which is the distance between the two smallest scaled
  x-values, or the plot width when there is only one distinct x-value. When the distinct
  x-values are evenly spaced, that width is the distance between every two adjacent
  scaled x-values.
\<close>

theorem hoverRects_geometry:
  "let xs = map px (allPoints ds);
       u = uniqueXValues xs;
       sx = xScale width (Min (set xs)) (Max (set xs));
       rs = hoverRects ds
   in length rs = length u
    \<and> (\<forall>i<length u.
          rectX (rs ! i) + rectWidth (rs ! i) / 2 = sx (u ! i)
          \<and> rectY (rs ! i) = 0
          \<and> rectHeight (rs ! i) = height
          \<and> rectWidth (rs ! i) = (if 1 < length u then sx (u ! 1) - sx (u ! 0) else width))
    \<and> ((\<forall>i. Suc i < length u \<longrightarrow> u ! Suc i - u ! i = d) \<longrightarrow>
         (\<forall>i. Suc i < length u \<longrightarrow> rectWidth (rs ! i) = sx (u ! Suc i) - sx (u ! i)))"
proof (cases "map px (allPoints ds)")
  case Nil
  then show ?thesis by (simp add: hoverRects_def uniqueXValues_def)
next
  case (Cons v vs)
  let ?xs = "v # vs"
  let ?u = "uniqueXValues ?xs"
  let ?lo = "Min (set ?xs)" and ?hi = "Max (set ?xs)"
  let ?sx = "xScale width ?lo ?hi"
  let ?rs = "hoverRects ds"
  note rs = hoverRects_Cons [OF Cons]
  have len: "length ?rs = length ?u" by (simp add: rs)
  have each: "rectX (?rs ! i) + rectWidth (?rs ! i) / 2 = ?sx (?u ! i)
          \<and> rectY (?rs ! i) = 0
          \<and> rectHeight (?rs ! i) = height
          \<and> rectWidth (?rs ! i) = (if 1 < length ?u then ?sx (?u ! 1) - ?sx (?u ! 0) else width)"
    if "i < length ?u" for i
    using that by (simp add: rs columnWidth_def)
  have even: "rectWidth (?rs ! i) = ?sx (?u ! Suc i) - ?sx (?u ! i)"
    if d: "\<forall>i. Suc i < length ?u \<longrightarrow> ?u ! Suc i - ?u ! i = d" and i: "Suc i < length ?u" for i
  proof -
    from i have two: "1 < length ?u" by simp
    from two_columns_spread [OF two] have ne: "?lo \<noteq> ?hi" .
    from i have "i < length ?u" by simp
    from each [OF this] two have "rectWidth (?rs ! i) = ?sx (?u ! 1) - ?sx (?u ! 0)" by simp
    also have "\<dots> = (?u ! 1 - ?u ! 0) / (?hi - ?lo) * width" by (rule xScale_diff [OF ne])
    also have "?u ! 1 - ?u ! 0 = d" using d two by simp
    also have "d = ?u ! Suc i - ?u ! i" using d i by simp
    also have "(?u ! Suc i - ?u ! i) / (?hi - ?lo) * width = ?sx (?u ! Suc i) - ?sx (?u ! i)"
      by (rule xScale_diff [OF ne, symmetric])
    finally show ?thesis .
  qed
  show ?thesis
    unfolding Let_def Cons using len each even by blast
qed


lemmas plot_defs = width_def height_def svgWidth_def svgHeight_def
  marginTop_def marginBottom_def marginLeft_def marginRight_def

text \<open>
  Claim C7 as stated fails when the x-values are not evenly spaced: with the columns 0, 1
  and 3 the rectangle of the last column is \<open>260 / 3\<close> wide, while the distance between it
  and its only neighbour is \<open>520 / 3\<close>.
\<close>

theorem hoverRects_uneven_columns:
  "uniqueXValues (map px (allPoints
      [\<lparr>label = ''Average Total Cost'',
        data = [\<lparr>px = 0, py = 1\<rparr>, \<lparr>px = 1, py = 2\<rparr>, \<lparr>px = 3, py = 4\<rparr>],
        color = ''text-amber-500''\<rparr>])) = [0, 1, 3]
   \<and> rectWidth (hoverRects
      [\<lparr>label = ''Average Total Cost'',
        data = [\<lparr>px = 0, py = 1\<rparr>, \<lparr>px = 1, py = 2\<rparr>, \<lparr>px = 3, py = 4\<rparr>],
        color = ''text-amber-500''\<rparr>] ! 2) = 260 / 3
   \<and> xScale width 0 3 3 - xScale width 0 3 1 = 520 / 3
   \<and> rectWidth (hoverRects
      [\<lparr>label = ''Average Total Cost'',
        data = [\<lparr>px = 0, py = 1\<rparr>, \<lparr>px = 1, py = 2\<rparr>, \<lparr>px = 3, py = 4\<rparr>],
        color = ''text-amber-500''\<rparr>] ! 2) \<noteq> xScale width 0 3 3 - xScale width 0 3 1"
  by (simp add: hoverRects_def allPoints_def uniqueXValues_def columnWidth_def xScale_def
        Let_def plot_defs)

text \<open>
  The columns 0, 1, 3 (the last rectangle is centred on 260), the evenly spaced columns
  0, 1, 2, and a single column.
\<close>

theorem hoverRects_geometry_witness:
  "rectX (hoverRects
      [\<lparr>label = ''Average Total Cost'',
        data = [\<lparr>px = 0, py = 1\<rparr>, \<lparr>px = 1, py = 2\<rparr>, \<lparr>px = 3, py = 4\<rparr>],
        color = ''text-amber-500''\<rparr>] ! 2)
     + rectWidth (hoverRects
      [\<lparr>label = ''Average Total Cost'',
        data = [\<lparr>px = 0, py = 1\<rparr>, \<lparr>px = 1, py = 2\<rparr>, \<lparr>px = 3, py = 4\<rparr>],
        color = ''text-amber-500''\<rparr>] ! 2) / 2 = 260
   \<and> rectWidth (hoverRects
      [\<lparr>label = ''Average Total Cost'',
        data = [\<lparr>px = 0, py = 1\<rparr>, \<lparr>px = 1, py = 2\<rparr>, \<lparr>px = 2, py = 4\<rparr>],
        color = ''text-amber-500''\<rparr>] ! 1) = xScale width 0 2 2 - xScale width 0 2 1
   \<and> rectWidth (hoverRects
      [\<lparr>label = ''Average Total Cost'', data = [\<lparr>px = 4, py = 1\<rparr>],
        color = ''text-amber-500''\<rparr>] ! 0) = width"
proof -
  let ?uneven = "[\<lparr>label = ''Average Total Cost'',
        data = [\<lparr>px = 0, py = 1\<rparr>, \<lparr>px = 1, py = 2\<rparr>, \<lparr>px = 3, py = 4\<rparr>],
        color = ''text-amber-500''\<rparr>]"
  let ?even = "[\<lparr>label = ''Average Total Cost'',
        data = [\<lparr>px = 0, py = 1\<rparr>, \<lparr>px = 1, py = 2\<rparr>, \<lparr>px = 2, py = 4\<rparr>],
        color = ''text-amber-500''\<rparr>]"
  let ?one = "[\<lparr>label = ''Average Total Cost'', data = [\<lparr>px = 4, py = 1\<rparr>],
        color = ''text-amber-500''\<rparr>]"
  have u1: "uniqueXValues (map px (allPoints ?uneven)) = [0, 1, 3]"
    and u2: "uniqueXValues (map px (allPoints ?even)) = [0, 1, 2]"
    and u3: "uniqueXValues (map px (allPoints ?one)) = [4]"
    by (simp_all add: allPoints_def uniqueXValues_def)
  have m1: "Min (set (map px (allPoints ?uneven))) = 0"
    and m2: "Max (set (map px (allPoints ?uneven))) = 3"
    and m3: "Min (set (map px (allPoints ?even))) = 0"
    and m4: "Max (set (map px (allPoints ?even))) = 2"
    by (simp_all add: allPoints_def)
  have spaced: "\<forall>i. Suc i < length [0, 1, 2::real] \<longrightarrow> [0, 1, 2::real] ! Suc i - [0, 1, 2] ! i = 1"
    by (simp add: nth_Cons split: nat.splits)
  have a: "rectX (hoverRects ?uneven ! 2) + rectWidth (hoverRects ?uneven ! 2) / 2 = 260"
    using hoverRects_geometry [of ?uneven 1, unfolded Let_def u1 m1 m2,
        THEN conjunct2, THEN conjunct1, rule_format, of 2]
    by (simp add: xScale_def plot_defs)
  have b: "rectWidth (hoverRects ?even ! 1) = xScale width 0 2 2 - xScale width 0 2 1"
    using hoverRects_geometry [of ?even 1, unfolded Let_def u2 m3 m4,
        THEN conjunct2, THEN conjunct2, rule_format, OF spaced [rule_format], of 1]
    by simp
  have c: "rectWidth (hoverRects ?one ! 0) = width"
    using hoverRects_geometry [of ?one 1, unfolded Let_def u3,
        THEN conjunct2, THEN conjunct1, rule_format, of 0]
    by simp
  from a b c show ?thesis by simp
qed

section \<open>Properties of the saved scenarios\<close>

lemma findIndex_ge: "- 1 \<le> findIndex P xs"
  by (induction xs) (simp_all add: Let_def)

lemma findIndex_none: "findIndex P xs = - 1 \<longleftrightarrow> (\<forall>s\<in>set xs. \<not> P s)"
proof (induction xs)
  case Nil
  show ?case by simp
next
  case (Cons s rest)
  have "findIndex P rest + 1 \<noteq> - 1"
    using findIndex_ge [of P rest] by simp
  with Cons show ?case by (simp add: Let_def)
qed

lemma findIndex_found:
  assumes "- 1 < findIndex P xs"
  shows "nat (findIndex P xs) < length xs
         \<and> P (xs ! nat (findIndex P xs))
         \<and> (\<forall>j<nat (findIndex P xs). \<not> P (xs ! j))"
  using assms
proof (induction xs)
  case Nil
  then show ?case by simp
next
  case (Cons s rest)
  show ?case
  proof (cases "P s")
    case True
    then show ?thesis by simp
  next
    case False
    with Cons.prems have r: "- 1 < findIndex P rest"
      by (simp add: Let_def split: if_splits)
    then have ne: "findIndex P rest \<noteq> - 1" by simp
    from r have nn: "0 \<le> findIndex P rest" by simp
    from False ne have eq: "findIndex P (s # rest) = findIndex P rest + 1"
      by (simp add: Let_def)
    from nn have nat_eq: "nat (findIndex P rest + 1) = Suc (nat (findIndex P rest))"
      by (simp add: nat_add_distrib)
    from Cons.IH [OF r] False show ?thesis
      unfolding eq nat_eq by (auto simp: less_Suc_eq_0_disj)
  qed
qed

lemma saveScenario_replace:
  assumes "Scenario.name sc \<in> set (map Scenario.name prev)"
  shows "\<exists>i<length prev. Scenario.name (prev ! i) = Scenario.name sc
           \<and> (\<forall>j<i. Scenario.name (prev ! j) \<noteq> Scenario.name sc)
           \<and> saveScenario sc prev = prev[i := sc]"
proof -
  let ?P = "\<lambda>s. Scenario.name s = Scenario.name sc"
  from assms have "\<not> (\<forall>s\<in>set prev. \<not> ?P s)" by (auto simp: image_iff)
  then have "findIndex ?P prev \<noteq> - 1" by (simp add: findIndex_none)
  with findIndex_ge [of ?P prev] have gt: "- 1 < findIndex ?P prev" by simp
  from findIndex_found [OF gt] gt show ?thesis
    by (intro exI [of _ "nat (findIndex ?P prev)"]) (simp add: saveScenario_def Let_def)
qed

lemma saveScenario_append:
  assumes "Scenario.name sc \<notin> set (map Scenario.name prev)"
  shows "saveScenario sc prev = prev @ [sc]"
proof -
  let ?P = "\<lambda>s. Scenario.name s = Scenario.name sc"
  from assms have "\<forall>s\<in>set prev. \<not> ?P s" by (auto simp: image_iff)
  then have "findIndex ?P prev = - 1" by (simp add: findIndex_none)
  then show ?thesis by (simp add: saveScenario_def Let_def)
qed

lemma saveScenario_names:
  "map Scenario.name (saveScenario sc prev) =
     (if Scenario.name sc \<in> set (map Scenario.name prev) then map Scenario.name prev
      else map Scenario.name prev @ [Scenario.name sc])"
proof (cases "Scenario.name sc \<in> set (map Scenario.name prev)")
  case True
  from saveScenario_replace [OF True] obtain i where i: "i < length prev"
    and nm: "Scenario.name (prev ! i) = Scenario.name sc"
    and eq: "saveScenario sc prev = prev[i := sc]"
    by blast
  have "map Scenario.name (prev[i := sc]) = (map Scenario.name prev)[i := Scenario.name sc]"
    by (simp add: map_update)
  also have "\<dots> = map Scenario.name prev"
    using i nm by (metis length_map list_update_id nth_map)
  finally show ?thesis using True eq by simp
next
  case False
  then show ?thesis by (simp add: saveScenario_append)
qed

lemma saveScenario_distinct:
  "distinct (map Scenario.name prev) \<Longrightarrow> distinct (map Scenario.name (saveScenario sc prev))"
  by (simp add: saveScenario_names)

lemma saveScenario_member: "sc \<in> set (saveScenario sc prev)"
proof (cases "Scenario.name sc \<in> set (map Scenario.name prev)")
  case True
  from saveScenario_replace [OF True] obtain i where "i < length prev"
    and "saveScenario sc prev = prev[i := sc]"
    by blast
  then show ?thesis by (simp add: set_update_memI)
next
  case False
  then show ?thesis by (simp add: saveScenario_append)
qed

lemma applyEvent_distinct:
  "distinct (map Scenario.name prev) \<Longrightarrow> distinct (map Scenario.name (applyEvent ev prev))"
  by (cases ev) (simp_all add: saveScenario_distinct handleClearScenarios_def)

lemma fold_applyEvent_distinct:
  "distinct (map Scenario.name prev) \<Longrightarrow>
     distinct (map Scenario.name (fold applyEvent evs prev))"
  by (induction evs arbitrary: prev) (simp_all add: applyEvent_distinct)

lemma runEvents_distinct: "distinct (map Scenario.name (runEvents evs))"
  by (simp add: runEvents_def fold_applyEvent_distinct)

lemma filter_distinct_key:
  "distinct (map f xs) \<Longrightarrow> x \<in> set xs \<Longrightarrow> filter (\<lambda>s. f s = f x) xs = [x]"
proof (induction xs)
  case Nil
  then show ?case by simp
next
  case (Cons a xs)
  show ?case
  proof (cases "x = a")
    case True
    with Cons.prems have "\<forall>s\<in>set xs. f s \<noteq> f x" by (auto simp: image_iff)
    then have "filter (\<lambda>s. f s = f x) xs = []" by (simp add: filter_empty_conv)
    with True show ?thesis by simp
  next
    case False
    with Cons.prems have x: "x \<in> set xs" and d: "distinct (map f xs)" by simp_all
    from Cons.prems x have "f a \<noteq> f x" by (auto simp: image_iff)
    with Cons.IH [OF d x] show ?thesis by simp
  qed
qed

text \<open>
  Claim C9: after any sequence of saves (and clears), starting from the empty list, no two
  entries of the scenario list have the same capital name. Saving a scenario whose name
  is already in the list replaces the entry with that name at its position and leaves the
  rest of the list as it was; saving a new name appends; after a save exactly one entry
  has the saved name, and it is the scenario just saved. \<open>handleSaveScenario\<close> saves the
  scenario named after the current production schedule, and clearing gives the empty list.
\<close>

theorem saveScenario_upsert:
  "distinct (map Scenario.name (runEvents evs))
   \<and> (Scenario.name sc \<in> set (map Scenario.name prev) \<longrightarrow>
        (\<exists>i<length prev. Scenario.name (prev ! i) = Scenario.name sc
           \<and> (\<forall>j<i. Scenario.name (prev ! j) \<noteq> Scenario.name sc)
           \<and> saveScenario sc prev = prev[i := sc]))
   \<and> (Scenario.name sc \<notin> set (map Scenario.name prev) \<longrightarrow>
        saveScenario sc prev = prev @ [sc])
   \<and> filter (\<lambda>s. Scenario.name s = Scenario.name sc) (runEvents (evs @ [Save sc])) = [sc]
   \<and> handleSaveScenario productionSchedule price prev
       = saveScenario (newScenario productionSchedule price) prev
   \<and> Scenario.name (newScenario productionSchedule price)
       = ProductionSchedule.name productionSchedule
   \<and> handleClearScenarios prev = []
   \<and> runEvents (evs @ [Clear]) = []"
proof -
  have run_snoc: "runEvents (evs @ [ev]) = applyEvent ev (runEvents evs)" for ev
    by (simp add: runEvents_def)
  have "distinct (map Scenario.name (runEvents (evs @ [Save sc])))"
    by (rule runEvents_distinct)
  moreover have "sc \<in> set (runEvents (evs @ [Save sc]))"
    by (simp add: run_snoc saveScenario_member)
  ultimately have one:
    "filter (\<lambda>s. Scenario.name s = Scenario.name sc) (runEvents (evs @ [Save sc])) = [sc]"
    by (rule filter_distinct_key)
  show ?thesis
    using runEvents_distinct [of evs] saveScenario_replace [of sc prev]
      saveScenario_append [of sc prev] one
    by (simp add: run_snoc handleSaveScenario_def handleClearScenarios_def newScenario_def)
qed


text \<open>
  The Standard Oven saved at price 15, the Conveyor Belt Oven saved after it, and the
  Standard Oven saved again at price 16: two entries, the first one with the new values.
\<close>

theorem saveScenario_upsert_witness:
  "let sc1 = \<lparr>name = ''Standard Oven'', icon = ''fire'', maxProfit = 160, optimalLabour = 4,
               priceAtSave = 15, mcAtMaxProfit = Num (32 / 3), atcAtMaxProfit = Num (37 / 3)\<rparr>;
       sc2 = \<lparr>name = ''Conveyor Belt Oven'', icon = ''fast-forward'', maxProfit = 2130,
               optimalLabour = 7, priceAtSave = 15, mcAtMaxProfit = Num 8,
               atcAtMaxProfit = Num (132 / 23)\<rparr>;
       sc3 = \<lparr>name = ''Standard Oven'', icon = ''fire'', maxProfit = 220, optimalLabour = 4,
               priceAtSave = 16, mcAtMaxProfit = Num (32 / 3), atcAtMaxProfit = Num (37 / 3)\<rparr>
   in Scenario.name sc2 \<notin> set (map Scenario.name [sc1])
    \<and> saveScenario sc2 [sc1] = [sc1, sc2]
    \<and> Scenario.name sc3 \<in> set (map Scenario.name [sc1, sc2])
    \<and> saveScenario sc3 [sc1, sc2] = [sc3, sc2]
    \<and> runEvents [Save sc1, Save sc2, Save sc3] = [sc3, sc2]
    \<and> distinct (map Scenario.name (runEvents [Save sc1, Save sc2, Save sc3]))"
proof -
  let ?sc1 = "\<lparr>name = ''Standard Oven'', icon = ''fire'', maxProfit = 160, optimalLabour = 4,
               priceAtSave = 15, mcAtMaxProfit = Num (32 / 3), atcAtMaxProfit = Num (37 / 3)\<rparr>"
  let ?sc2 = "\<lparr>name = ''Conveyor Belt Oven'', icon = ''fast-forward'', maxProfit = 2130,
               optimalLabour = 7, priceAtSave = 15, mcAtMaxProfit = Num 8,
               atcAtMaxProfit = Num (132 / 23)\<rparr>"
  let ?sc3 = "\<lparr>name = ''Standard Oven'', icon = ''fire'', maxProfit = 220, optimalLabour = 4,
               priceAtSave = 16, mcAtMaxProfit = Num (32 / 3), atcAtMaxProfit = Num (37 / 3)\<rparr>"
  have notin: "Scenario.name ?sc2 \<notin> set (map Scenario.name [?sc1])"
    and isin: "Scenario.name ?sc3 \<in> set (map Scenario.name [?sc1, ?sc2])"
    by simp_all
  have app: "saveScenario ?sc2 [?sc1] = [?sc1, ?sc2]"
    using saveScenario_upsert [of "[]" ?sc2 "[?sc1]"] notin by simp
  have run: "runEvents [Save ?sc1, Save ?sc2, Save ?sc3] = [?sc3, ?sc2]"
    by (simp add: runEvents_def saveScenario_def Let_def)
  have rep: "saveScenario ?sc3 [?sc1, ?sc2] = [?sc3, ?sc2]"
    by (simp add: saveScenario_def Let_def)
  have dist: "distinct (map Scenario.name (runEvents [Save ?sc1, Save ?sc2, Save ?sc3]))"
    using saveScenario_upsert [of "[Save ?sc1, Save ?sc2, Save ?sc3]" ?sc3 "[?sc1, ?sc2]"] by blast
  show ?thesis
    unfolding Let_def using notin isin app run rep dist by blast
qed

end
